theory Spec2Isabelle
  imports Main "HOL-Library.Word"
begin

section \<open>The Keypair class of src/keypair.js\<close>

text \<open>
  The class \<open>Keypair\<close> binds an Ed25519 key pair to the mnemonic it was derived from.
  It is built on two libraries that are not part of the file: \<open>bip39\<close>
  (\<open>validateMnemonic\<close>, \<open>generateMnemonic\<close>) and \<open>utils/ed25519.js\<close>
  (\<open>fromMnemonic\<close>, \<open>generateKeypair\<close>, \<open>getPublicKey\<close>). The model takes them as a
  record of functions, and every theorem holds for any such record. The two functions that
  draw randomness take the state of the entropy source and return the new one.

  Objects live in a heap of references, because constructors assign the fields of
  \<open>this\<close> and the static factories assign the fields of a fresh instance afterwards.
\<close>

subsection \<open>Values\<close>

type_synonym byte = "8 word"

text \<open>A \<open>Uint8Array\<close>; its \<open>byteLength\<close> is the length of the list.\<close>

type_synonym bytes = "byte list"

text \<open>\<open>a.slice(b, e)\<close> for indices that are not negative.\<close>

definition slice_arr :: "nat \<Rightarrow> nat \<Rightarrow> 'a list \<Rightarrow> 'a list" where
  "slice_arr b e xs = take (e - b) (drop b xs)"

text \<open>\<open>a[i]\<close>: reading past the end of a typed array gives \<open>undefined\<close>, here \<open>None\<close>.\<close>

definition at_index :: "'a list \<Rightarrow> nat \<Rightarrow> 'a option" where
  "at_index xs i = (if i < length xs then Some (xs ! i) else None)"

text \<open>
  A value that is a string or \<open>undefined\<close> is truthy when it is a string that is not
  empty; \<open>truthy\<close> returns that string.
\<close>

fun truthy :: "string option \<Rightarrow> string option" where
  "truthy None = None"
| "truthy (Some s) = (if s = [] then None else Some s)"

text \<open>The object \<open>{ publicKey, secretKey }\<close> that the curve utilities return.\<close>

record raw_keypair =
  publicKey :: bytes
  secretKey :: bytes

text \<open>The wrapper class of \<open>publicKey.js\<close>, which holds the raw bytes.\<close>

datatype PublicKey = PublicKey bytes

text \<open>
  Every failure of the file is \<open>throw new Error(message)\<close>. Reading a property of
  \<open>undefined\<close> is a \<open>TypeError\<close> of the language.
\<close>

datatype error = Error string | TypeError

abbreviation InvalidMnemonicError :: error where
  "InvalidMnemonicError \<equiv> Error ''Invalid mnemonic''"

abbreviation NoMnemonicAvailableError :: error where
  "NoMnemonicAvailableError \<equiv> Error ''No mnemonic available to recover from''"

abbreviation InvalidKeyLengthError :: error where
  "InvalidKeyLengthError \<equiv> Error ''Invalid secret key size''"

abbreviation KeyMismatchError :: error where
  "KeyMismatchError \<equiv> Error ''Provided secretKey is invalid''"

subsection \<open>The imported services\<close>

record 'r services =
  validateMnemonic :: "string \<Rightarrow> bool"
  generateMnemonic :: "'r \<Rightarrow> string \<times> 'r"
  fromMnemonic :: "string \<Rightarrow> raw_keypair"
  generateKeypair :: "'r \<Rightarrow> raw_keypair \<times> 'r"
  getPublicKey :: "bytes \<Rightarrow> bytes"

subsection \<open>Objects and the heap\<close>

text \<open>The two class fields \<open>_keypair\<close> and \<open>_mnemonic\<close>; \<open>None\<close> is \<open>undefined\<close>.\<close>

record Keypair =
  priv_keypair :: "raw_keypair option"
  priv_mnemonic :: "string option"

type_synonym ref = nat

record 'r world =
  heap :: "ref \<Rightarrow> Keypair"
  next_ref :: ref
  entropy :: 'r

text \<open>
  \<open>new\<close> takes the next reference; the field declarations of the class set both fields
  to \<open>undefined\<close> before the constructor body runs.
\<close>

definition alloc :: "'r world \<Rightarrow> ref \<times> 'r world" where
  "alloc w =
     (next_ref w,
      w\<lparr>heap := (heap w)(next_ref w := \<lparr>priv_keypair = None, priv_mnemonic = None\<rparr>),
        next_ref := Suc (next_ref w)\<rparr>)"

definition set_keypair :: "ref \<Rightarrow> raw_keypair \<Rightarrow> 'r world \<Rightarrow> 'r world" where
  "set_keypair this kp w =
     w\<lparr>heap := (heap w)(this := (heap w this)\<lparr>priv_keypair := Some kp\<rparr>)\<rparr>"

definition set_mnemonic :: "ref \<Rightarrow> string \<Rightarrow> 'r world \<Rightarrow> 'r world" where
  "set_mnemonic this m w =
     w\<lparr>heap := (heap w)(this := (heap w this)\<lparr>priv_mnemonic := Some m\<rparr>)\<rparr>"

subsection \<open>Constructors\<close>

text \<open>
  The body of \<open>constructor(mnemonic)\<close>, run on \<open>this\<close>. The argument is \<open>None\<close> when
  it is omitted. In the second branch the source reads \<open>this._mnemonic\<close> back, which is
  the string just stored.
\<close>

definition Keypair_constructor ::
  "'r services \<Rightarrow> ref \<Rightarrow> string option \<Rightarrow> 'r world \<Rightarrow> error + 'r world" where
  "Keypair_constructor svc this mnemonic w =
     (case truthy mnemonic of
        Some m \<Rightarrow>
          if \<not> validateMnemonic svc m then Inl InvalidMnemonicError
          else Inr (set_mnemonic this m (set_keypair this (fromMnemonic svc m) w))
      | None \<Rightarrow>
          (let (m, e) = generateMnemonic svc (entropy w);
               w1 = set_mnemonic this m (w\<lparr>entropy := e\<rparr>)
           in Inr (set_keypair this (fromMnemonic svc m) w1)))"

text \<open>\<open>new Keypair(mnemonic)\<close>.\<close>

definition new_Keypair ::
  "'r services \<Rightarrow> string option \<Rightarrow> 'r world \<Rightarrow> error + (ref \<times> 'r world)" where
  "new_Keypair svc mnemonic w =
     (let (this, w0) = alloc w
      in case Keypair_constructor svc this mnemonic w0 of
           Inl e \<Rightarrow> Inl e
         | Inr w1 \<Rightarrow> Inr (this, w1))"

text \<open>
  The subclass: \<open>constructor(keypair) { super(); this._keypair = keypair; }\<close>. The call
  \<open>super()\<close> runs the body above with the argument omitted.
\<close>

definition KeypairFromGenerated_constructor ::
  "'r services \<Rightarrow> ref \<Rightarrow> raw_keypair \<Rightarrow> 'r world \<Rightarrow> error + 'r world" where
  "KeypairFromGenerated_constructor svc this keypair w =
     (case Keypair_constructor svc this None w of
        Inl e \<Rightarrow> Inl e
      | Inr w1 \<Rightarrow> Inr (set_keypair this keypair w1))"

definition new_KeypairFromGenerated ::
  "'r services \<Rightarrow> raw_keypair \<Rightarrow> 'r world \<Rightarrow> error + (ref \<times> 'r world)" where
  "new_KeypairFromGenerated svc keypair w =
     (let (this, w0) = alloc w
      in case KeypairFromGenerated_constructor svc this keypair w0 of
           Inl e \<Rightarrow> Inl e
         | Inr w1 \<Rightarrow> Inr (this, w1))"

subsection \<open>Static factories\<close>

definition Keypair_generate :: "'r services \<Rightarrow> 'r world \<Rightarrow> error + (ref \<times> 'r world)" where
  "Keypair_generate svc w =
     (let (keypair, e) = generateKeypair svc (entropy w)
      in new_KeypairFromGenerated svc keypair (w\<lparr>entropy := e\<rparr>))"

definition Keypair_fromMnemonic ::
  "'r services \<Rightarrow> string \<Rightarrow> 'r world \<Rightarrow> error + (ref \<times> 'r world)" where
  "Keypair_fromMnemonic svc mnemonic w =
     (if \<not> validateMnemonic svc mnemonic then Inl InvalidMnemonicError
      else
        (let keypair = fromMnemonic svc mnemonic
         in case new_Keypair svc None w of
              Inl e \<Rightarrow> Inl e
            | Inr (inst, w1) \<Rightarrow>
                Inr (inst, set_mnemonic inst mnemonic (set_keypair inst keypair w1))))"

text \<open>
  The loop of \<open>fromSecretKey\<close>:
  \<open>for (let i = 0; i < 32; i++) if (publicKey[i] !== computedPublicKey[i]) throw ...\<close>,
  from the index \<open>i\<close> on.
\<close>

function compare_loop :: "nat \<Rightarrow> bytes \<Rightarrow> bytes \<Rightarrow> error + unit" where
  "compare_loop i pk computed =
     (if i < 32 then
        (if at_index pk i \<noteq> at_index computed i then Inl KeyMismatchError
         else compare_loop (Suc i) pk computed)
      else Inr ())"
  by pat_completeness auto
termination
  by (relation "measure (\<lambda>(i, pk, computed). 32 - i)") auto

text \<open>
  The second argument of \<open>fromSecretKey\<close>. A property that is absent, as in the default
  \<open>{}\<close>, is \<open>None\<close> and counts as false.
\<close>

record options =
  skipValidation :: "bool option"

definition Keypair_fromSecretKey ::
  "'r services \<Rightarrow> bytes \<Rightarrow> options \<Rightarrow> 'r world \<Rightarrow> error + (ref \<times> 'r world)" where
  "Keypair_fromSecretKey svc sk opts w =
     (if length sk \<noteq> 64 then Inl InvalidKeyLengthError
      else
        (let pk = slice_arr 32 64 sk;
             checked =
               (if skipValidation opts \<noteq> Some True
                then compare_loop 0 pk (getPublicKey svc (slice_arr 0 32 sk))
                else Inr ())
         in case checked of
              Inl e \<Rightarrow> Inl e
            | Inr u \<Rightarrow> new_KeypairFromGenerated svc \<lparr>publicKey = pk, secretKey = sk\<rparr> w))"

subsection \<open>Accessors and recovery\<close>

definition Keypair_publicKey :: "ref \<Rightarrow> 'r world \<Rightarrow> error + PublicKey" where
  "Keypair_publicKey this w =
     (case priv_keypair (heap w this) of
        None \<Rightarrow> Inl TypeError
      | Some kp \<Rightarrow> Inr (PublicKey (publicKey kp)))"

definition Keypair_secretKey :: "ref \<Rightarrow> 'r world \<Rightarrow> error + bytes" where
  "Keypair_secretKey this w =
     (case priv_keypair (heap w this) of
        None \<Rightarrow> Inl TypeError
      | Some kp \<Rightarrow> Inr (secretKey kp))"

definition Keypair_getMnemonic :: "ref \<Rightarrow> 'r world \<Rightarrow> string option" where
  "Keypair_getMnemonic this w = priv_mnemonic (heap w this)"

definition Keypair_recoverFromMnemonic ::
  "'r services \<Rightarrow> ref \<Rightarrow> 'r world \<Rightarrow> error + (ref \<times> 'r world)" where
  "Keypair_recoverFromMnemonic svc this w =
     (case truthy (priv_mnemonic (heap w this)) of
        None \<Rightarrow> Inl NoMnemonicAvailableError
      | Some m \<Rightarrow> Keypair_fromMnemonic svc m w)"

subsection \<open>The consistency of a stored mnemonic\<close>

text \<open>
  The invariant of the data model, as a predicate on an object: a mnemonic that is stored
  derives, through the curve utility, exactly the stored key pair.
\<close>

definition mnemonic_consistent :: "'r services \<Rightarrow> Keypair \<Rightarrow> bool" where
  "mnemonic_consistent svc obj =
     (case priv_mnemonic obj of
        None \<Rightarrow> True
      | Some m \<Rightarrow> priv_keypair obj = Some (fromMnemonic svc m))"

subsection \<open>A concrete instance of the services\<close>

text \<open>
  A small instance on which the model runs: the entropy source is a counter, two phrases
  are valid, a private key is 32 copies of one byte and its public key adds one to each.
\<close>

definition toy_getPublicKey :: "bytes \<Rightarrow> bytes" where
  "toy_getPublicKey priv = map (\<lambda>b. b + 1) priv"

definition toy_keypair :: "byte \<Rightarrow> raw_keypair" where
  "toy_keypair b =
     \<lparr>publicKey = toy_getPublicKey (replicate 32 b),
      secretKey = replicate 32 b @ toy_getPublicKey (replicate 32 b)\<rparr>"

definition toy_services :: "nat services" where
  "toy_services =
     \<lparr>validateMnemonic = (\<lambda>m. m = ''abandon about'' \<or> m = ''legal winner''),
      generateMnemonic = (\<lambda>n. (if even n then ''abandon about'' else ''legal winner'', Suc n)),
      fromMnemonic = (\<lambda>m. toy_keypair (of_nat (length m))),
      generateKeypair = (\<lambda>n. (toy_keypair (of_nat (100 + n)), Suc n)),
      getPublicKey = toy_getPublicKey\<rparr>"

definition toy_world :: "nat world" where
  "toy_world =
     \<lparr>heap = (\<lambda>r. \<lparr>priv_keypair = None, priv_mnemonic = None\<rparr>), next_ref = 0, entropy = 0\<rparr>"

section \<open>What each operation returns\<close>

lemma new_Keypair_None:
  "new_Keypair svc None w =
     Inr (next_ref w,
       w\<lparr>heap := (heap w)(next_ref w :=
            \<lparr>priv_keypair = Some (fromMnemonic svc (fst (generateMnemonic svc (entropy w)))),
             priv_mnemonic = Some (fst (generateMnemonic svc (entropy w)))\<rparr>),
         next_ref := Suc (next_ref w),
         entropy := snd (generateMnemonic svc (entropy w))\<rparr>)"
  by (simp add: new_Keypair_def Keypair_constructor_def alloc_def set_keypair_def
      set_mnemonic_def split: prod.splits)

lemma new_Keypair_empty: "new_Keypair svc (Some []) w = new_Keypair svc None w"
  by (simp add: new_Keypair_def Keypair_constructor_def)

lemma new_Keypair_Some:
  "m \<noteq> [] \<Longrightarrow>
   new_Keypair svc (Some m) w =
     (if \<not> validateMnemonic svc m then Inl InvalidMnemonicError
      else Inr (next_ref w,
        w\<lparr>heap := (heap w)(next_ref w :=
             \<lparr>priv_keypair = Some (fromMnemonic svc m), priv_mnemonic = Some m\<rparr>),
          next_ref := Suc (next_ref w)\<rparr>))"
  by (simp add: new_Keypair_def Keypair_constructor_def alloc_def set_keypair_def
      set_mnemonic_def)

text \<open>
  The subclass constructor leaves the mnemonic that \<open>super()\<close> generated in place and
  replaces the key pair only.
\<close>

lemma new_KeypairFromGenerated_eq:
  "new_KeypairFromGenerated svc kp w =
     Inr (next_ref w,
       w\<lparr>heap := (heap w)(next_ref w :=
            \<lparr>priv_keypair = Some kp,
             priv_mnemonic = Some (fst (generateMnemonic svc (entropy w)))\<rparr>),
         next_ref := Suc (next_ref w),
         entropy := snd (generateMnemonic svc (entropy w))\<rparr>)"
  by (simp add: new_KeypairFromGenerated_def KeypairFromGenerated_constructor_def
      Keypair_constructor_def alloc_def set_keypair_def set_mnemonic_def split: prod.splits)

lemma Keypair_fromMnemonic_valid:
  "validateMnemonic svc m \<Longrightarrow>
   Keypair_fromMnemonic svc m w =
     Inr (next_ref w,
       w\<lparr>heap := (heap w)(next_ref w :=
            \<lparr>priv_keypair = Some (fromMnemonic svc m), priv_mnemonic = Some m\<rparr>),
         next_ref := Suc (next_ref w),
         entropy := snd (generateMnemonic svc (entropy w))\<rparr>)"
  by (simp add: Keypair_fromMnemonic_def new_Keypair_None set_keypair_def set_mnemonic_def)

subsection \<open>The comparison loop\<close>

lemma compare_loop_ok:
  "(compare_loop i pk computed = Inr ()) =
     (\<forall>j. i \<le> j \<and> j < 32 \<longrightarrow> at_index pk j = at_index computed j)"
proof (induction i pk computed rule: compare_loop.induct)
  case (1 i pk computed)
  show ?case
  proof (cases "i < 32")
    case False
    then show ?thesis by (subst compare_loop.simps) auto
  next
    case True
    show ?thesis
    proof (cases "at_index pk i = at_index computed i")
      case False
      with True show ?thesis by (subst compare_loop.simps) auto
    next
      case eq: True
      have "compare_loop i pk computed = compare_loop (Suc i) pk computed"
        using True eq by (subst compare_loop.simps) simp
      also have "(\<dots> = Inr ()) =
          (\<forall>j. Suc i \<le> j \<and> j < 32 \<longrightarrow> at_index pk j = at_index computed j)"
        using "1.IH" True eq by simp
      also have "\<dots> = (\<forall>j. i \<le> j \<and> j < 32 \<longrightarrow> at_index pk j = at_index computed j)"
        using eq by (metis Suc_leI le_neq_implies_less Suc_leD)
      finally show ?thesis .
    qed
  qed
qed

lemma compare_loop_result:
  "compare_loop i pk computed = Inr () \<or> compare_loop i pk computed = Inl KeyMismatchError"
proof (induction i pk computed rule: compare_loop.induct)
  case (1 i pk computed)
  then show ?case by (subst (1 2) compare_loop.simps) auto
qed

lemma compare_loop_mismatch:
  assumes "i \<le> j" and "j < 32" and "at_index pk j \<noteq> at_index computed j"
  shows "compare_loop i pk computed = Inl KeyMismatchError"
proof -
  have "compare_loop i pk computed \<noteq> Inr ()"
    using assms compare_loop_ok [of i pk computed] by blast
  then show ?thesis
    using compare_loop_result [of i pk computed] by blast
qed

subsection \<open>fromSecretKey\<close>

lemma Keypair_fromSecretKey_Inr:
  assumes "Keypair_fromSecretKey svc k opts w = Inr (this, w')"
  shows "length k = 64"
    and "this = next_ref w"
    and "w' = w\<lparr>heap := (heap w)(next_ref w :=
            \<lparr>priv_keypair = Some \<lparr>publicKey = slice_arr 32 64 k, secretKey = k\<rparr>,
             priv_mnemonic = Some (fst (generateMnemonic svc (entropy w)))\<rparr>),
         next_ref := Suc (next_ref w),
         entropy := snd (generateMnemonic svc (entropy w))\<rparr>"
  using assms
  by (auto simp: Keypair_fromSecretKey_def new_KeypairFromGenerated_eq Let_def
      split: if_splits sum.splits)

subsection \<open>The concrete instance\<close>

lemma toy_simps:
  "validateMnemonic toy_services m = (m = ''abandon about'' \<or> m = ''legal winner'')"
  "generateMnemonic toy_services n = (if even n then ''abandon about'' else ''legal winner'', Suc n)"
  "fromMnemonic toy_services m = toy_keypair (of_nat (length m))"
  "generateKeypair toy_services n = (toy_keypair (of_nat (100 + n)), Suc n)"
  "getPublicKey toy_services = toy_getPublicKey"
  "entropy toy_world = 0"
  "next_ref toy_world = 0"
  by (simp_all add: toy_services_def toy_world_def)

lemma toy_keypair_eq:
  "toy_keypair b =
     \<lparr>publicKey = replicate 32 (b + 1), secretKey = replicate 32 b @ replicate 32 (b + 1)\<rparr>"
  by (simp add: toy_keypair_def toy_getPublicKey_def)

lemma toy_fromSecretKey_skip:
  "\<exists>this w'. Keypair_fromSecretKey toy_services (replicate 64 7)
      \<lparr>skipValidation = Some True\<rparr> toy_world = Inr (this, w')"
  by (simp add: Keypair_fromSecretKey_def new_KeypairFromGenerated_eq)

section \<open>The claims\<close>

subsection \<open>Keypairs built from generated or raw keys\<close>

text \<open>
  Claim C1 says that a keypair from \<open>Keypair.generate()\<close> or from
  \<open>Keypair.fromSecretKey\<close> has no mnemonic. The code does otherwise: \<open>generate\<close>
  always returns an object, and \<open>getMnemonic()\<close> on it is the phrase that
  \<open>generateMnemonic\<close> produced inside \<open>super()\<close>, drawn after the key pair; and on
  every object that \<open>fromSecretKey\<close> returns, with or without \<open>skipValidation\<close>,
  \<open>getMnemonic()\<close> is the phrase drawn from the entropy the call started with.
\<close>

theorem generated_keypair_carries_fresh_mnemonic:
  "(\<exists>this w'. Keypair_generate svc w = Inr (this, w') \<and>
      Keypair_getMnemonic this w' =
        Some (fst (generateMnemonic svc (snd (generateKeypair svc (entropy w)))))) \<and>
   (\<forall>that v. Keypair_fromSecretKey svc k opts w = Inr (that, v) \<longrightarrow>
      Keypair_getMnemonic that v = Some (fst (generateMnemonic svc (entropy w))))"
proof
  show "\<exists>this w'. Keypair_generate svc w = Inr (this, w') \<and>
      Keypair_getMnemonic this w' =
        Some (fst (generateMnemonic svc (snd (generateKeypair svc (entropy w)))))"
    by (simp add: Keypair_generate_def new_KeypairFromGenerated_eq Keypair_getMnemonic_def
        split: prod.splits)
next
  show "\<forall>that v. Keypair_fromSecretKey svc k opts w = Inr (that, v) \<longrightarrow>
      Keypair_getMnemonic that v = Some (fst (generateMnemonic svc (entropy w)))"
  proof (intro allI impI)
    fix that v
    assume h: "Keypair_fromSecretKey svc k opts w = Inr (that, v)"
    show "Keypair_getMnemonic that v = Some (fst (generateMnemonic svc (entropy w)))"
      by (simp add: Keypair_fromSecretKey_Inr(2,3) [OF h] Keypair_getMnemonic_def)
  qed
qed

text \<open>
  At the concrete instance: the generated keypair reports \<open>''legal winner''\<close> and the
  keypair built from 64 bytes of 7 with \<open>skipValidation\<close> reports \<open>''abandon about''\<close>.
\<close>

theorem generated_keypair_carries_fresh_mnemonic_witness:
  "(\<exists>this w'. Keypair_generate toy_services toy_world = Inr (this, w') \<and>
      Keypair_getMnemonic this w' = Some ''legal winner'') \<and>
   (\<exists>that v. Keypair_fromSecretKey toy_services (replicate 64 7)
        \<lparr>skipValidation = Some True\<rparr> toy_world = Inr (that, v) \<and>
      Keypair_getMnemonic that v = Some ''abandon about'')"
proof -
  note c = generated_keypair_carries_fresh_mnemonic
    [of toy_services toy_world "replicate 64 7" "\<lparr>skipValidation = Some True\<rparr>"]
  obtain that v where s: "Keypair_fromSecretKey toy_services (replicate 64 7)
      \<lparr>skipValidation = Some True\<rparr> toy_world = Inr (that, v)"
    using toy_fromSecretKey_skip by blast
  have "Keypair_getMnemonic that v = Some ''abandon about''"
    using c s by (simp add: toy_simps)
  with s c show ?thesis by (simp add: toy_simps)
qed

text \<open>
  Claim C2 says that a stored mnemonic always derives the stored keys. On the two paths
  through the subclass the code keeps the mnemonic of \<open>super()\<close> next to keys that come
  from elsewhere, so the invariant holds on the returned object exactly when that random
  phrase happens to derive the generated key pair (for \<open>generate\<close>) or the supplied
  bytes (for \<open>fromSecretKey\<close>).
\<close>

theorem generated_keypair_consistent_only_by_coincidence:
  "(\<exists>this w'. Keypair_generate svc w = Inr (this, w') \<and>
      mnemonic_consistent svc (heap w' this) =
        (fromMnemonic svc (fst (generateMnemonic svc (snd (generateKeypair svc (entropy w)))))
           = fst (generateKeypair svc (entropy w)))) \<and>
   (\<forall>that v. Keypair_fromSecretKey svc k opts w = Inr (that, v) \<longrightarrow>
      mnemonic_consistent svc (heap v that) =
        (fromMnemonic svc (fst (generateMnemonic svc (entropy w)))
           = \<lparr>publicKey = slice_arr 32 64 k, secretKey = k\<rparr>))"
proof
  show "\<exists>this w'. Keypair_generate svc w = Inr (this, w') \<and>
      mnemonic_consistent svc (heap w' this) =
        (fromMnemonic svc (fst (generateMnemonic svc (snd (generateKeypair svc (entropy w)))))
           = fst (generateKeypair svc (entropy w)))"
    by (auto simp: Keypair_generate_def new_KeypairFromGenerated_eq mnemonic_consistent_def
        split: prod.splits)
next
  show "\<forall>that v. Keypair_fromSecretKey svc k opts w = Inr (that, v) \<longrightarrow>
      mnemonic_consistent svc (heap v that) =
        (fromMnemonic svc (fst (generateMnemonic svc (entropy w)))
           = \<lparr>publicKey = slice_arr 32 64 k, secretKey = k\<rparr>)"
  proof (intro allI impI)
    fix that v
    assume h: "Keypair_fromSecretKey svc k opts w = Inr (that, v)"
    show "mnemonic_consistent svc (heap v that) =
        (fromMnemonic svc (fst (generateMnemonic svc (entropy w)))
           = \<lparr>publicKey = slice_arr 32 64 k, secretKey = k\<rparr>)"
      by (auto simp: Keypair_fromSecretKey_Inr(2,3) [OF h] mnemonic_consistent_def)
  qed
qed

text \<open>
  At the concrete instance both objects hold a mnemonic and break the invariant.
\<close>

theorem generated_keypair_consistent_only_by_coincidence_witness:
  "(\<exists>this w'. Keypair_generate toy_services toy_world = Inr (this, w') \<and>
      \<not> mnemonic_consistent toy_services (heap w' this)) \<and>
   (\<exists>that v. Keypair_fromSecretKey toy_services (replicate 64 7)
        \<lparr>skipValidation = Some True\<rparr> toy_world = Inr (that, v) \<and>
      \<not> mnemonic_consistent toy_services (heap v that))"
proof -
  note c = generated_keypair_consistent_only_by_coincidence
    [of toy_services toy_world "replicate 64 7" "\<lparr>skipValidation = Some True\<rparr>"]
  obtain that v where s: "Keypair_fromSecretKey toy_services (replicate 64 7)
      \<lparr>skipValidation = Some True\<rparr> toy_world = Inr (that, v)"
    using toy_fromSecretKey_skip by blast
  have "\<not> mnemonic_consistent toy_services (heap v that)"
    using c s by (simp add: toy_simps toy_keypair_eq slice_arr_def)
  with s c show ?thesis by (simp add: toy_simps toy_keypair_eq)
qed

text \<open>
  Claim C3 says that \<open>recoverFromMnemonic()\<close> on a keypair built by \<open>fromSecretKey\<close>
  fails with the error of a missing mnemonic. In the code the object holds the phrase
  \<open>m\<close> of \<open>super()\<close>; when \<open>m\<close> is a valid phrase that is not empty, as every phrase
  of \<open>bip39.generateMnemonic\<close> is, recovery succeeds and returns a keypair derived from
  \<open>m\<close>, which carries \<open>m\<close>.
\<close>

theorem recover_after_fromSecretKey_succeeds:
  assumes "Keypair_fromSecretKey svc k opts w = Inr (this, w')"
    and "m = fst (generateMnemonic svc (entropy w))"
    and "validateMnemonic svc m" and "m \<noteq> []"
  shows "\<exists>that w''. Keypair_recoverFromMnemonic svc this w' = Inr (that, w'') \<and>
           Keypair_getMnemonic that w'' = Some m \<and>
           priv_keypair (heap w'' that) = Some (fromMnemonic svc m)"
  using assms(2-)
  by (simp add: Keypair_fromSecretKey_Inr(2,3) [OF assms(1)] Keypair_recoverFromMnemonic_def
      Keypair_fromMnemonic_valid Keypair_getMnemonic_def)

text \<open>
  At the concrete instance the keypair built from 64 bytes of 7 recovers to the keypair of
  \<open>''abandon about''\<close>, whose private key is 32 bytes of 13.
\<close>

theorem recover_after_fromSecretKey_succeeds_witness:
  "\<exists>this w' that w''.
     Keypair_fromSecretKey toy_services (replicate 64 7) \<lparr>skipValidation = Some True\<rparr> toy_world
       = Inr (this, w') \<and>
     Keypair_secretKey this w' = Inr (replicate 64 7) \<and>
     Keypair_recoverFromMnemonic toy_services this w' = Inr (that, w'') \<and>
     Keypair_getMnemonic that w'' = Some ''abandon about'' \<and>
     Keypair_secretKey that w'' = Inr (replicate 32 13 @ replicate 32 14)"
proof -
  obtain this w' where s: "Keypair_fromSecretKey toy_services (replicate 64 7)
      \<lparr>skipValidation = Some True\<rparr> toy_world = Inr (this, w')"
    using toy_fromSecretKey_skip by blast
  have k: "Keypair_secretKey this w' = Inr (replicate 64 7)"
    by (simp add: Keypair_fromSecretKey_Inr(2,3) [OF s] Keypair_secretKey_def)
  have "\<exists>that w''. Keypair_recoverFromMnemonic toy_services this w' = Inr (that, w'') \<and>
           Keypair_getMnemonic that w'' = Some ''abandon about'' \<and>
           priv_keypair (heap w'' that) = Some (fromMnemonic toy_services ''abandon about'')"
    by (rule recover_after_fromSecretKey_succeeds [OF s]) (simp_all add: toy_simps)
  then obtain that w'' where
    r: "Keypair_recoverFromMnemonic toy_services this w' = Inr (that, w'')"
      "Keypair_getMnemonic that w'' = Some ''abandon about''"
      "priv_keypair (heap w'' that) = Some (toy_keypair 13)"
    by (auto simp: toy_simps)
  have "Keypair_secretKey that w'' = Inr (replicate 32 13 @ replicate 32 14)"
    using r(3) by (simp add: Keypair_secretKey_def toy_keypair_eq)
  with s k r show ?thesis by blast
qed

subsection \<open>Invalid mnemonics\<close>

text \<open>
  Claim C4, as stated, includes the empty string among the phrases that both the static
  \<open>fromMnemonic\<close> and the constructor reject. At the concrete instance the empty string
  fails validation, yet \<open>new Keypair('')\<close> returns the object at reference 0 and raises
  nothing: the test \<open>if (mnemonic)\<close> sends the empty string to the branch of the
  omitted argument.
\<close>

theorem constructor_accepts_empty_string:
  "\<not> validateMnemonic toy_services [] \<and>
   map_sum id fst (new_Keypair toy_services (Some []) toy_world) = Inr 0 \<and>
   new_Keypair toy_services (Some []) toy_world \<noteq> Inl InvalidMnemonicError"
  by (simp add: new_Keypair_empty new_Keypair_None toy_simps)

text \<open>
  Claim C4, amended: for every string that fails validation, the static \<open>fromMnemonic\<close>
  fails with \<open>Invalid mnemonic\<close> and returns no keypair, the empty string included;
  the constructor does the same for every such string that is not empty.
\<close>

theorem invalid_mnemonic_rejected:
  assumes "\<not> validateMnemonic svc m"
  shows "Keypair_fromMnemonic svc m w = Inl InvalidMnemonicError \<and>
         (m \<noteq> [] \<longrightarrow> new_Keypair svc (Some m) w = Inl InvalidMnemonicError)"
  using assms by (simp add: Keypair_fromMnemonic_def new_Keypair_Some)

text \<open>
  At the concrete instance, for the invalid phrase \<open>''abandon abandon''\<close> and for the
  empty string.
\<close>

theorem invalid_mnemonic_rejected_witness:
  "\<not> validateMnemonic toy_services ''abandon abandon'' \<and>
   Keypair_fromMnemonic toy_services ''abandon abandon'' toy_world = Inl InvalidMnemonicError \<and>
   new_Keypair toy_services (Some ''abandon abandon'') toy_world = Inl InvalidMnemonicError \<and>
   \<not> validateMnemonic toy_services [] \<and>
   Keypair_fromMnemonic toy_services [] toy_world = Inl InvalidMnemonicError"
proof -
  have h: "\<not> validateMnemonic toy_services ''abandon abandon''"
    by (simp add: toy_simps)
  have e: "\<not> validateMnemonic toy_services []"
    by (simp add: toy_simps)
  from invalid_mnemonic_rejected [OF h, of toy_world]
    invalid_mnemonic_rejected [OF e, of toy_world] h e
  show ?thesis by simp
qed

subsection \<open>Reconstruction from a secret key\<close>

text \<open>
  Claim C5: let \<open>k\<close> have 64 bytes, and let some byte among the 32 of \<open>k.slice(32, 64)\<close>
  differ from the byte at the same index of the public key computed from
  \<open>k.slice(0, 32)\<close>. Then \<open>fromSecretKey\<close> fails with \<open>Provided secretKey is invalid\<close>
  for every options object whose \<open>skipValidation\<close> is not true (absent included), and
  with \<open>skipValidation: true\<close> it returns a keypair whose stored public key is
  \<open>k.slice(32, 64)\<close>, the last 32 bytes, and whose stored secret key is \<open>k\<close>.
\<close>

theorem fromSecretKey_mismatch:
  assumes "length k = 64"
    and "\<exists>i<32. at_index (slice_arr 32 64 k) i
                 \<noteq> at_index (getPublicKey svc (slice_arr 0 32 k)) i"
  shows "(\<forall>opts. skipValidation opts \<noteq> Some True \<longrightarrow>
            Keypair_fromSecretKey svc k opts w = Inl KeyMismatchError) \<and>
         (\<exists>this w'.
            Keypair_fromSecretKey svc k \<lparr>skipValidation = Some True\<rparr> w = Inr (this, w') \<and>
            priv_keypair (heap w' this)
              = Some \<lparr>publicKey = slice_arr 32 64 k, secretKey = k\<rparr> \<and>
            Keypair_publicKey this w' = Inr (PublicKey (drop 32 k)) \<and>
            Keypair_secretKey this w' = Inr k)"
proof
  from assms(2) obtain i where i: "i < 32"
    "at_index (slice_arr 32 64 k) i \<noteq> at_index (getPublicKey svc (slice_arr 0 32 k)) i"
    by blast
  have "compare_loop 0 (slice_arr 32 64 k) (getPublicKey svc (slice_arr 0 32 k))
          = Inl KeyMismatchError"
    using i by (intro compare_loop_mismatch [of 0 i]) simp_all
  then show "\<forall>opts. skipValidation opts \<noteq> Some True \<longrightarrow>
            Keypair_fromSecretKey svc k opts w = Inl KeyMismatchError"
    using assms(1) by (simp add: Keypair_fromSecretKey_def)
next
  have "slice_arr 32 64 k = drop 32 k"
    using assms(1) by (simp add: slice_arr_def)
  then show "\<exists>this w'.
            Keypair_fromSecretKey svc k \<lparr>skipValidation = Some True\<rparr> w = Inr (this, w') \<and>
            priv_keypair (heap w' this)
              = Some \<lparr>publicKey = slice_arr 32 64 k, secretKey = k\<rparr> \<and>
            Keypair_publicKey this w' = Inr (PublicKey (drop 32 k)) \<and>
            Keypair_secretKey this w' = Inr k"
    using assms(1)
    by (simp add: Keypair_fromSecretKey_def new_KeypairFromGenerated_eq Keypair_publicKey_def
        Keypair_secretKey_def)
qed

text \<open>
  At the concrete instance: the key of 64 bytes of 7 claims the public key 32 bytes of 7,
  while the public key of its first half is 32 bytes of 8.
\<close>

theorem fromSecretKey_mismatch_witness:
  "length (replicate 64 (7 :: byte)) = 64 \<and>
   at_index (slice_arr 32 64 (replicate 64 (7 :: byte))) 0 = Some 7 \<and>
   at_index (getPublicKey toy_services (slice_arr 0 32 (replicate 64 7))) 0 = Some 8 \<and>
   Keypair_fromSecretKey toy_services (replicate 64 7) \<lparr>skipValidation = None\<rparr> toy_world
     = Inl KeyMismatchError \<and>
   Keypair_fromSecretKey toy_services (replicate 64 7) \<lparr>skipValidation = Some False\<rparr> toy_world
     = Inl KeyMismatchError \<and>
   (\<exists>this w'.
      Keypair_fromSecretKey toy_services (replicate 64 7) \<lparr>skipValidation = Some True\<rparr> toy_world
        = Inr (this, w') \<and>
      Keypair_publicKey this w' = Inr (PublicKey (replicate 32 7)) \<and>
      Keypair_secretKey this w' = Inr (replicate 64 7))"
proof -
  have l: "length (replicate 64 (7 :: byte)) = 64" by simp
  have a: "at_index (slice_arr 32 64 (replicate 64 (7 :: byte))) 0 = Some 7"
    by (simp add: at_index_def slice_arr_def)
  have b: "at_index (getPublicKey toy_services (slice_arr 0 32 (replicate 64 7))) 0 = Some 8"
    by (simp add: at_index_def slice_arr_def toy_simps toy_getPublicKey_def)
  have d: "\<exists>i<32. at_index (slice_arr 32 64 (replicate 64 (7 :: byte))) i
             \<noteq> at_index (getPublicKey toy_services (slice_arr 0 32 (replicate 64 7))) i"
    using a b by (intro exI [of _ 0]) simp
  note c = fromSecretKey_mismatch [OF l d, of toy_world]
  have n: "Keypair_fromSecretKey toy_services (replicate 64 7) \<lparr>skipValidation = None\<rparr>
      toy_world = Inl KeyMismatchError"
    using c by simp
  have f: "Keypair_fromSecretKey toy_services (replicate 64 7) \<lparr>skipValidation = Some False\<rparr>
      toy_world = Inl KeyMismatchError"
    using c by simp
  from c obtain this w' where
    "Keypair_fromSecretKey toy_services (replicate 64 7) \<lparr>skipValidation = Some True\<rparr> toy_world
        = Inr (this, w')"
    "Keypair_publicKey this w' = Inr (PublicKey (drop 32 (replicate 64 7)))"
    "Keypair_secretKey this w' = Inr (replicate 64 7)"
    by blast
  then have "\<exists>this w'.
      Keypair_fromSecretKey toy_services (replicate 64 7) \<lparr>skipValidation = Some True\<rparr> toy_world
        = Inr (this, w') \<and>
      Keypair_publicKey this w' = Inr (PublicKey (replicate 32 7)) \<and>
      Keypair_secretKey this w' = Inr (replicate 64 7)"
    by auto
  with l a b n f show ?thesis by blast
qed

text \<open>
  Claim C6: \<open>fromSecretKey\<close> fails with \<open>Invalid secret key size\<close> exactly when the
  input does not have 64 bytes, whatever the options are; so no keypair comes back for
  another length, and a 64-byte input never raises this error.
\<close>

theorem fromSecretKey_length_check:
  "(Keypair_fromSecretKey svc k opts w = Inl InvalidKeyLengthError) = (length k \<noteq> 64)"
proof (cases "length k = 64")
  case False
  then show ?thesis by (simp add: Keypair_fromSecretKey_def)
next
  case True
  have "Keypair_fromSecretKey svc k opts w \<noteq> Inl InvalidKeyLengthError"
  proof (cases "skipValidation opts = Some True")
    case skip: True
    with True show ?thesis
      by (simp add: Keypair_fromSecretKey_def new_KeypairFromGenerated_eq)
  next
    case False
    with True show ?thesis
      using compare_loop_result [of 0 "slice_arr 32 64 k" "getPublicKey svc (slice_arr 0 32 k)"]
      by (auto simp: Keypair_fromSecretKey_def new_KeypairFromGenerated_eq)
  qed
  with True show ?thesis by simp
qed

text \<open>At the concrete instance: 63 and 65 bytes are refused, 64 bytes are not.\<close>

theorem fromSecretKey_length_check_witness:
  "Keypair_fromSecretKey toy_services (replicate 63 7) \<lparr>skipValidation = Some True\<rparr> toy_world
     = Inl InvalidKeyLengthError \<and>
   Keypair_fromSecretKey toy_services (replicate 65 7) \<lparr>skipValidation = None\<rparr> toy_world
     = Inl InvalidKeyLengthError \<and>
   Keypair_fromSecretKey toy_services (replicate 64 7) \<lparr>skipValidation = None\<rparr> toy_world
     \<noteq> Inl InvalidKeyLengthError"
  using fromSecretKey_length_check
      [of toy_services "replicate 63 7" "\<lparr>skipValidation = Some True\<rparr>" toy_world]
    fromSecretKey_length_check
      [of toy_services "replicate 65 7" "\<lparr>skipValidation = None\<rparr>" toy_world]
    fromSecretKey_length_check
      [of toy_services "replicate 64 7" "\<lparr>skipValidation = None\<rparr>" toy_world]
  by simp

subsection \<open>Derivation from a mnemonic\<close>

text \<open>
  Claim C7: for a valid mnemonic \<open>m\<close>, two calls of the static \<open>fromMnemonic\<close>, started
  in any two states \<open>w1\<close> and \<open>w2\<close> (any heaps, any entropy), both return a keypair, and
  the two have the same \<open>publicKey\<close> and the same \<open>secretKey\<close>: the keys derived from
  \<open>m\<close>. The mnemonic that the inner \<open>new Keypair()\<close> draws is overwritten.
\<close>

theorem fromMnemonic_deterministic:
  assumes "validateMnemonic svc m"
  shows "\<exists>a1 v1 a2 v2.
           Keypair_fromMnemonic svc m w1 = Inr (a1, v1) \<and>
           Keypair_fromMnemonic svc m w2 = Inr (a2, v2) \<and>
           Keypair_publicKey a1 v1 = Keypair_publicKey a2 v2 \<and>
           Keypair_secretKey a1 v1 = Keypair_secretKey a2 v2 \<and>
           Keypair_publicKey a1 v1 = Inr (PublicKey (publicKey (fromMnemonic svc m))) \<and>
           Keypair_secretKey a1 v1 = Inr (secretKey (fromMnemonic svc m))"
  using assms
  by (simp add: Keypair_fromMnemonic_valid Keypair_publicKey_def Keypair_secretKey_def)

text \<open>
  At the concrete instance, from entropy 0 and from entropy 1, where the inner constructor
  draws two different phrases.
\<close>

theorem fromMnemonic_deterministic_witness:
  "validateMnemonic toy_services ''abandon about'' \<and>
   fst (generateMnemonic toy_services 0) \<noteq> fst (generateMnemonic toy_services 1) \<and>
   (\<exists>a1 v1 a2 v2.
      Keypair_fromMnemonic toy_services ''abandon about'' toy_world = Inr (a1, v1) \<and>
      Keypair_fromMnemonic toy_services ''abandon about'' (toy_world\<lparr>entropy := 1\<rparr>)
        = Inr (a2, v2) \<and>
      Keypair_publicKey a1 v1 = Keypair_publicKey a2 v2 \<and>
      Keypair_secretKey a1 v1 = Keypair_secretKey a2 v2 \<and>
      Keypair_publicKey a1 v1 = Inr (PublicKey (replicate 32 14)) \<and>
      Keypair_secretKey a1 v1 = Inr (replicate 32 13 @ replicate 32 14))"
proof -
  have h: "validateMnemonic toy_services ''abandon about''"
    by (simp add: toy_simps)
  have d: "fst (generateMnemonic toy_services 0) \<noteq> fst (generateMnemonic toy_services 1)"
    by (simp add: toy_simps)
  from fromMnemonic_deterministic [OF h, of toy_world "toy_world\<lparr>entropy := 1\<rparr>"]
  obtain a1 v1 a2 v2 where r:
    "Keypair_fromMnemonic toy_services ''abandon about'' toy_world = Inr (a1, v1)"
    "Keypair_fromMnemonic toy_services ''abandon about'' (toy_world\<lparr>entropy := 1\<rparr>)
        = Inr (a2, v2)"
    "Keypair_publicKey a1 v1 = Keypair_publicKey a2 v2"
    "Keypair_secretKey a1 v1 = Keypair_secretKey a2 v2"
    "Keypair_publicKey a1 v1
       = Inr (PublicKey (publicKey (fromMnemonic toy_services ''abandon about'')))"
    "Keypair_secretKey a1 v1 = Inr (secretKey (fromMnemonic toy_services ''abandon about''))"
    by blast
  have "Keypair_publicKey a1 v1 = Inr (PublicKey (replicate 32 14))"
    using r(5) by (simp add: toy_simps toy_keypair_eq)
  moreover have "Keypair_secretKey a1 v1 = Inr (replicate 32 13 @ replicate 32 14)"
    using r(6) by (simp add: toy_simps toy_keypair_eq)
  ultimately show ?thesis using h d r(1-4) by blast
qed

text \<open>
  Claim C8: for a valid mnemonic \<open>m\<close>, with a mnemonic service that rejects the empty
  string (as \<open>bip39\<close> does), \<open>fromMnemonic(m)\<close> returns a keypair \<open>a\<close> and
  \<open>a.recoverFromMnemonic()\<close> returns a keypair \<open>b\<close> with the same \<open>publicKey\<close>, the
  same \<open>secretKey\<close> and the same mnemonic \<open>m\<close>. The keypair \<open>b\<close> is another object and
  the fields of \<open>a\<close> are the same after the call as before.
\<close>

theorem recover_round_trip:
  assumes "validateMnemonic svc m" and "\<not> validateMnemonic svc []"
  shows "\<exists>a w1 b w2.
           Keypair_fromMnemonic svc m w = Inr (a, w1) \<and>
           Keypair_recoverFromMnemonic svc a w1 = Inr (b, w2) \<and>
           Keypair_publicKey b w2 = Keypair_publicKey a w1 \<and>
           Keypair_secretKey b w2 = Keypair_secretKey a w1 \<and>
           Keypair_getMnemonic b w2 = Keypair_getMnemonic a w1 \<and>
           Keypair_publicKey a w1 = Inr (PublicKey (publicKey (fromMnemonic svc m))) \<and>
           Keypair_secretKey a w1 = Inr (secretKey (fromMnemonic svc m)) \<and>
           Keypair_getMnemonic a w1 = Some m \<and>
           b \<noteq> a \<and> heap w2 a = heap w1 a"
proof -
  from assms have "m \<noteq> []" by auto
  with assms(1) show ?thesis
    by (simp add: Keypair_fromMnemonic_valid Keypair_recoverFromMnemonic_def
        Keypair_publicKey_def Keypair_secretKey_def Keypair_getMnemonic_def)
qed

text \<open>At the concrete instance, for the phrase \<open>''legal winner''\<close>.\<close>

theorem recover_round_trip_witness:
  "validateMnemonic toy_services ''legal winner'' \<and>
   \<not> validateMnemonic toy_services [] \<and>
   (\<exists>a w1 b w2.
      Keypair_fromMnemonic toy_services ''legal winner'' toy_world = Inr (a, w1) \<and>
      Keypair_recoverFromMnemonic toy_services a w1 = Inr (b, w2) \<and>
      Keypair_publicKey b w2 = Inr (PublicKey (replicate 32 13)) \<and>
      Keypair_secretKey b w2 = Inr (replicate 32 12 @ replicate 32 13) \<and>
      Keypair_getMnemonic b w2 = Some ''legal winner'' \<and>
      Keypair_publicKey a w1 = Inr (PublicKey (replicate 32 13)) \<and>
      Keypair_secretKey a w1 = Inr (replicate 32 12 @ replicate 32 13) \<and>
      Keypair_getMnemonic a w1 = Some ''legal winner'' \<and>
      b \<noteq> a \<and> heap w2 a = heap w1 a)"
proof -
  have h: "validateMnemonic toy_services ''legal winner''"
    by (simp add: toy_simps)
  have e: "\<not> validateMnemonic toy_services []"
    by (simp add: toy_simps)
  from recover_round_trip [OF h e, of toy_world]
  obtain a w1 b w2 where r:
    "Keypair_fromMnemonic toy_services ''legal winner'' toy_world = Inr (a, w1)"
    "Keypair_recoverFromMnemonic toy_services a w1 = Inr (b, w2)"
    "Keypair_publicKey b w2 = Keypair_publicKey a w1"
    "Keypair_secretKey b w2 = Keypair_secretKey a w1"
    "Keypair_getMnemonic b w2 = Keypair_getMnemonic a w1"
    "Keypair_publicKey a w1
       = Inr (PublicKey (publicKey (fromMnemonic toy_services ''legal winner'')))"
    "Keypair_secretKey a w1 = Inr (secretKey (fromMnemonic toy_services ''legal winner''))"
    "Keypair_getMnemonic a w1 = Some ''legal winner''"
    "b \<noteq> a" "heap w2 a = heap w1 a"
    by blast
  have p: "Keypair_publicKey a w1 = Inr (PublicKey (replicate 32 13))"
    using r(6) by (simp add: toy_simps toy_keypair_eq)
  have s: "Keypair_secretKey a w1 = Inr (replicate 32 12 @ replicate 32 13)"
    using r(7) by (simp add: toy_simps toy_keypair_eq)
  have "Keypair_publicKey b w2 = Inr (PublicKey (replicate 32 13))"
    using r(3) p by simp
  moreover have "Keypair_secretKey b w2 = Inr (replicate 32 12 @ replicate 32 13)"
    using r(4) s by simp
  moreover have "Keypair_getMnemonic b w2 = Some ''legal winner''"
    using r(5) r(8) by simp
  ultimately show ?thesis using h e r(1,2,8,9,10) p s by blast
qed

subsection \<open>The constructor\<close>

text \<open>
  Claim C9: \<open>new Keypair()\<close> with no argument always returns a keypair; its
  \<open>getMnemonic()\<close> is a string \<open>m\<close>, not \<open>undefined\<close>, and the key pair derived from
  \<open>m\<close> is the one stored, which the accessors \<open>publicKey\<close> and \<open>secretKey\<close> return.
\<close>

theorem default_constructor_mnemonic:
  "\<exists>this w' m.
     new_Keypair svc None w = Inr (this, w') \<and>
     Keypair_getMnemonic this w' = Some m \<and>
     priv_keypair (heap w' this) = Some (fromMnemonic svc m) \<and>
     Keypair_publicKey this w' = Inr (PublicKey (publicKey (fromMnemonic svc m))) \<and>
     Keypair_secretKey this w' = Inr (secretKey (fromMnemonic svc m)) \<and>
     mnemonic_consistent svc (heap w' this)"
  by (simp add: new_Keypair_None Keypair_getMnemonic_def Keypair_publicKey_def
      Keypair_secretKey_def mnemonic_consistent_def)

text \<open>At the concrete instance the fresh mnemonic is \<open>''abandon about''\<close>.\<close>

theorem default_constructor_mnemonic_witness:
  "\<exists>this w'.
     new_Keypair toy_services None toy_world = Inr (this, w') \<and>
     Keypair_getMnemonic this w' = Some ''abandon about'' \<and>
     Keypair_publicKey this w' = Inr (PublicKey (replicate 32 14)) \<and>
     Keypair_secretKey this w' = Inr (replicate 32 13 @ replicate 32 14)"
proof -
  from default_constructor_mnemonic [of toy_services toy_world]
  obtain this w' m where r:
    "new_Keypair toy_services None toy_world = Inr (this, w')"
    "Keypair_getMnemonic this w' = Some m"
    "Keypair_publicKey this w' = Inr (PublicKey (publicKey (fromMnemonic toy_services m)))"
    "Keypair_secretKey this w' = Inr (secretKey (fromMnemonic toy_services m))"
    by blast
  have m: "m = ''abandon about''"
    using r(1,2) by (auto simp: new_Keypair_None Keypair_getMnemonic_def toy_simps)
  have "Keypair_publicKey this w' = Inr (PublicKey (replicate 32 14))"
    using r(3) by (simp add: m toy_simps toy_keypair_eq)
  moreover have "Keypair_secretKey this w' = Inr (replicate 32 13 @ replicate 32 14)"
    using r(4) by (simp add: m toy_simps toy_keypair_eq)
  ultimately show ?thesis using r(1,2) m by blast
qed

text \<open>
  Claim C10: \<open>new Keypair(arg)\<close> raises \<open>Invalid mnemonic\<close> exactly when \<open>arg\<close> is a
  string that is not empty and fails validation, and it raises nothing else. The empty
  string gives the very result of the omitted argument: a keypair that carries the
  mnemonic drawn from the entropy source and the keys derived from it.
\<close>

theorem constructor_error_iff:
  "(new_Keypair svc arg w = Inl InvalidMnemonicError) =
     (\<exists>m. arg = Some m \<and> m \<noteq> [] \<and> \<not> validateMnemonic svc m) \<and>
   (\<exists>e. new_Keypair svc arg w = Inl e) = (new_Keypair svc arg w = Inl InvalidMnemonicError) \<and>
   new_Keypair svc (Some []) w = new_Keypair svc None w \<and>
   (\<exists>this w'. new_Keypair svc (Some []) w = Inr (this, w') \<and>
      Keypair_getMnemonic this w' = Some (fst (generateMnemonic svc (entropy w))) \<and>
      priv_keypair (heap w' this) =
        Some (fromMnemonic svc (fst (generateMnemonic svc (entropy w)))) \<and>
      entropy w' = snd (generateMnemonic svc (entropy w)))"
proof (intro conjI)
  show "(new_Keypair svc arg w = Inl InvalidMnemonicError) =
     (\<exists>m. arg = Some m \<and> m \<noteq> [] \<and> \<not> validateMnemonic svc m)"
  proof (cases arg)
    case None
    then show ?thesis by (simp add: new_Keypair_None)
  next
    case (Some m)
    then show ?thesis
      by (cases "m = []") (simp_all add: new_Keypair_empty new_Keypair_None new_Keypair_Some)
  qed
  show "(\<exists>e. new_Keypair svc arg w = Inl e) = (new_Keypair svc arg w = Inl InvalidMnemonicError)"
  proof (cases arg)
    case None
    then show ?thesis by (simp add: new_Keypair_None)
  next
    case (Some m)
    then show ?thesis
      by (cases "m = []") (simp_all add: new_Keypair_empty new_Keypair_None new_Keypair_Some)
  qed
  show "new_Keypair svc (Some []) w = new_Keypair svc None w"
    by (rule new_Keypair_empty)
  show "\<exists>this w'. new_Keypair svc (Some []) w = Inr (this, w') \<and>
      Keypair_getMnemonic this w' = Some (fst (generateMnemonic svc (entropy w))) \<and>
      priv_keypair (heap w' this) =
        Some (fromMnemonic svc (fst (generateMnemonic svc (entropy w)))) \<and>
      entropy w' = snd (generateMnemonic svc (entropy w))"
    by (simp add: new_Keypair_empty new_Keypair_None Keypair_getMnemonic_def)
qed

text \<open>
  At the concrete instance: an invalid phrase is refused, a valid phrase and the empty
  string are not, and the empty string yields the mnemonic \<open>''abandon about''\<close>.
\<close>

theorem constructor_error_iff_witness:
  "new_Keypair toy_services (Some ''abandon abandon'') toy_world = Inl InvalidMnemonicError \<and>
   new_Keypair toy_services (Some ''legal winner'') toy_world \<noteq> Inl InvalidMnemonicError \<and>
   new_Keypair toy_services (Some []) toy_world \<noteq> Inl InvalidMnemonicError \<and>
   new_Keypair toy_services None toy_world \<noteq> Inl InvalidMnemonicError \<and>
   new_Keypair toy_services (Some []) toy_world = new_Keypair toy_services None toy_world \<and>
   (\<exists>this w'. new_Keypair toy_services (Some []) toy_world = Inr (this, w') \<and>
      Keypair_getMnemonic this w' = Some ''abandon about'')"
proof -
  have 1: "new_Keypair toy_services (Some ''abandon abandon'') toy_world
      = Inl InvalidMnemonicError"
    using constructor_error_iff [of toy_services "Some ''abandon abandon''" toy_world]
    by (simp add: toy_simps)
  have 2: "new_Keypair toy_services (Some ''legal winner'') toy_world
      \<noteq> Inl InvalidMnemonicError"
    using constructor_error_iff [of toy_services "Some ''legal winner''" toy_world]
    by (simp add: toy_simps)
  have 3: "new_Keypair toy_services (Some []) toy_world \<noteq> Inl InvalidMnemonicError"
    using constructor_error_iff [of toy_services "Some []" toy_world] by auto
  have 4: "new_Keypair toy_services None toy_world \<noteq> Inl InvalidMnemonicError"
    using constructor_error_iff [of toy_services None toy_world] by auto
  have 5: "new_Keypair toy_services (Some []) toy_world = new_Keypair toy_services None toy_world"
    using constructor_error_iff [of toy_services None toy_world] by auto
  have 6: "\<exists>this w'. new_Keypair toy_services (Some []) toy_world = Inr (this, w') \<and>
      Keypair_getMnemonic this w' = Some ''abandon about''"
    using constructor_error_iff [of toy_services None toy_world] by (auto simp: toy_simps)
  from 1 2 3 4 5 6 show ?thesis by blast
qed

subsection \<open>Further properties of the code\<close>

text \<open>
  The guard of recovery: \<open>recoverFromMnemonic()\<close> fails with \<open>No mnemonic available to recover from\<close>
  exactly when the field \<open>_mnemonic\<close> of the object is \<open>undefined\<close> or the empty
  string.
\<close>

theorem recover_guard:
  "(Keypair_recoverFromMnemonic svc this w = Inl NoMnemonicAvailableError) =
     (Keypair_getMnemonic this w = None \<or> Keypair_getMnemonic this w = Some [])"
proof (cases "priv_mnemonic (heap w this)")
  case None
  then show ?thesis
    by (simp add: Keypair_recoverFromMnemonic_def Keypair_getMnemonic_def)
next
  case (Some m)
  then show ?thesis
    by (cases "m = []")
      (simp_all add: Keypair_recoverFromMnemonic_def Keypair_getMnemonic_def
        Keypair_fromMnemonic_def new_Keypair_None)
qed

text \<open>At the concrete instance, on an object whose fields were never assigned.\<close>

theorem recover_guard_witness:
  "Keypair_getMnemonic 0 toy_world = None \<and>
   Keypair_recoverFromMnemonic toy_services 0 toy_world = Inl NoMnemonicAvailableError"
proof -
  have n: "Keypair_getMnemonic 0 toy_world = None"
    by (simp add: Keypair_getMnemonic_def toy_world_def)
  with recover_guard [of toy_services 0 toy_world] show ?thesis by simp
qed

text \<open>
  The two constructions that go through a mnemonic keep the invariant. Every
  keypair that \<open>new Keypair(arg)\<close> returns holds a mnemonic that derives the stored key
  pair, and so does every keypair that the static \<open>fromMnemonic(m)\<close> returns, whose
  mnemonic is \<open>m\<close>.
\<close>

theorem mnemonic_paths_keep_invariant:
  "(\<forall>this w'. new_Keypair svc arg w = Inr (this, w') \<longrightarrow>
      mnemonic_consistent svc (heap w' this) \<and> Keypair_getMnemonic this w' \<noteq> None) \<and>
   (\<forall>this w'. Keypair_fromMnemonic svc m w = Inr (this, w') \<longrightarrow>
      mnemonic_consistent svc (heap w' this) \<and> Keypair_getMnemonic this w' = Some m)"
proof (intro conjI allI impI)
  fix this w'
  assume h: "new_Keypair svc arg w = Inr (this, w')"
  show "mnemonic_consistent svc (heap w' this)"
  proof (cases "truthy arg")
    case None
    then have "new_Keypair svc arg w = new_Keypair svc None w"
      by (cases arg) (simp_all add: new_Keypair_empty split: if_splits)
    with h show ?thesis
      by (auto simp: new_Keypair_None mnemonic_consistent_def)
  next
    case (Some s)
    then have "arg = Some s" "s \<noteq> []"
      by (cases arg; simp split: if_splits)+
    with h show ?thesis
      by (auto simp: new_Keypair_Some mnemonic_consistent_def split: if_splits)
  qed
  show "Keypair_getMnemonic this w' \<noteq> None"
  proof (cases "truthy arg")
    case None
    then have "new_Keypair svc arg w = new_Keypair svc None w"
      by (cases arg) (simp_all add: new_Keypair_empty split: if_splits)
    with h show ?thesis
      by (auto simp: new_Keypair_None Keypair_getMnemonic_def)
  next
    case (Some s)
    then have "arg = Some s" "s \<noteq> []"
      by (cases arg; simp split: if_splits)+
    with h show ?thesis
      by (auto simp: new_Keypair_Some Keypair_getMnemonic_def split: if_splits)
  qed
next
  fix this w'
  assume h: "Keypair_fromMnemonic svc m w = Inr (this, w')"
  then have v: "validateMnemonic svc m"
    by (simp add: Keypair_fromMnemonic_def split: if_splits)
  from h show "mnemonic_consistent svc (heap w' this)"
    by (auto simp: Keypair_fromMnemonic_valid [OF v] mnemonic_consistent_def)
  from h show "Keypair_getMnemonic this w' = Some m"
    by (auto simp: Keypair_fromMnemonic_valid [OF v] Keypair_getMnemonic_def)
qed

text \<open>At the concrete instance, for the two valid phrases.\<close>

theorem mnemonic_paths_keep_invariant_witness:
  "(\<exists>this w'. new_Keypair toy_services (Some ''legal winner'') toy_world = Inr (this, w') \<and>
      mnemonic_consistent toy_services (heap w' this) \<and>
      Keypair_getMnemonic this w' \<noteq> None) \<and>
   (\<exists>this w'. Keypair_fromMnemonic toy_services ''abandon about'' toy_world = Inr (this, w') \<and>
      mnemonic_consistent toy_services (heap w' this) \<and>
      Keypair_getMnemonic this w' = Some ''abandon about'')"
proof -
  note c = mnemonic_paths_keep_invariant
    [of toy_services "Some ''legal winner''" toy_world "''abandon about''"]
  obtain a w1 where n: "new_Keypair toy_services (Some ''legal winner'') toy_world = Inr (a, w1)"
    by (simp add: new_Keypair_Some toy_simps)
  obtain b w2 where
    f: "Keypair_fromMnemonic toy_services ''abandon about'' toy_world = Inr (b, w2)"
    by (simp add: Keypair_fromMnemonic_valid toy_simps)
  from c n have "mnemonic_consistent toy_services (heap w1 a) \<and>
      Keypair_getMnemonic a w1 \<noteq> None"
    by blast
  moreover from c f have "mnemonic_consistent toy_services (heap w2 b) \<and>
      Keypair_getMnemonic b w2 = Some ''abandon about''"
    by blast
  ultimately show ?thesis using n f by blast
qed

end
